theory Spec2Isabelle
  imports Main "HOL-Library.Sublist"
begin

section \<open>Python string operations used by the program\<close>

text \<open>
  A Python \<open>str\<close> is modelled as a HOL \<open>string\<close>: a list of characters with code
  points below 256. The functions below are the \<open>str\<close> methods that \<open>app.py\<close>
  calls, written out as the interpreter computes them.
\<close>

text \<open>\<open>sub in s\<close>: \<open>sub\<close> occurs in \<open>s\<close> as a contiguous substring.\<close>

fun contains :: "string \<Rightarrow> string \<Rightarrow> bool" where
  "contains sub [] = (sub = [])"
| "contains sub (c # cs) = (prefix sub (c # cs) \<or> contains sub cs)"

text \<open>
  \<open>s.replace(old, new)\<close>: every non-overlapping occurrence of \<open>old\<close>, found from
  the left, is replaced. For an empty \<open>old\<close> Python puts \<open>new\<close> before every
  character and at the end.
\<close>

fun py_replace :: "string \<Rightarrow> string \<Rightarrow> string \<Rightarrow> string" where
  "py_replace [] new s = new @ concat (map (\<lambda>c. c # new) s)"
| "py_replace (a # as) new [] = []"
| "py_replace (a # as) new (c # cs) =
     (if prefix (a # as) (c # cs)
      then new @ py_replace (a # as) new (drop (length as) cs)
      else c # py_replace (a # as) new cs)"

text \<open>
  \<open>s.split(sep)[0]\<close> for a non-empty \<open>sep\<close>: the part of \<open>s\<close> before the first
  occurrence of \<open>sep\<close>, all of \<open>s\<close> when there is none. The program only splits at
  the literals \<open>"&list="\<close>, \<open>"["\<close> and \<open>"(Official"\<close>.
\<close>

fun split_head :: "string \<Rightarrow> string \<Rightarrow> string" where
  "split_head sep [] = []"
| "split_head sep (c # cs) =
     (if prefix sep (c # cs) then [] else c # split_head sep cs)"

text \<open>
  \<open>c.isspace()\<close> on the code points below 256: TAB to CR, the separators FS to US,
  the space, NEL and the no-break space.
\<close>

definition py_isspace :: "char \<Rightarrow> bool" where
  "py_isspace c =
     (let n = (of_char c :: nat)
      in (9 \<le> n \<and> n \<le> 13) \<or> (28 \<le> n \<and> n \<le> 32) \<or> n = 133 \<or> n = 160)"

text \<open>\<open>s.strip()\<close> and \<open>s.strip(chars)\<close>.\<close>

definition strip_where :: "(char \<Rightarrow> bool) \<Rightarrow> string \<Rightarrow> string" where
  "strip_where P s = rev (dropWhile P (rev (dropWhile P s)))"

definition py_strip :: "string \<Rightarrow> string" where
  "py_strip s = strip_where py_isspace s"

definition py_strip_chars :: "string \<Rightarrow> string \<Rightarrow> string" where
  "py_strip_chars chars s = strip_where (\<lambda>c. c \<in> set chars) s"

section \<open>Title cleaning (\<open>process_entry\<close>, lines 350 to 358)\<close>

text \<open>
  The character set of the last \<open>strip\<close>: space, \<open>-_?!.,;:()[]{}\<close>, the single
  quote, the double quote and the backslash.
\<close>

definition strip_set :: string where
  "strip_set = '' -_?!.,;:()[]{}'' @ [CHR 0x27, CHR 0x22, CHR 0x5C]"

text \<open>
  \<open>clean_title uploader raw_title\<close> is the value of \<open>title\<close> after line 358, for
  the values of \<open>uploader\<close> and \<open>raw_title\<close> after lines 350 and 351.
\<close>

definition clean_title :: "string \<Rightarrow> string \<Rightarrow> string" where
  "clean_title uploader raw_title =
     (let title = raw_title;
          title = (if contains uploader title
                   then py_strip (py_replace uploader [] title) else title);
          title = py_strip (split_head ''['' title);
          title = py_strip (split_head ''(Official'' title);
          title = py_strip (py_replace ''(Visual)'' [] title)
      in py_strip_chars strip_set title)"

section \<open>File naming (\<open>process_entry\<close>, lines 455 to 459)\<close>

definition new_name :: "string \<Rightarrow> string \<Rightarrow> string" where
  "new_name artist song_title =
     (let safe_artist = py_replace ''/'' ''_'' artist;
          safe_title = py_replace ''/'' ''_'' song_title;
          safe_title = (if contains ''('' safe_title \<and> \<not> contains '')'' safe_title
                        then safe_title @ '')'' else safe_title)
      in safe_artist @ '' - '' @ safe_title @ ''.m4a'')"

section \<open>Paths (\<open>pathlib\<close>)\<close>

text \<open>
  A \<open>Path\<close> is its parent directory and its final component. \<open>path_suffix\<close>,
  \<open>path_stem\<close> and \<open>with_suffix\<close> follow \<open>pathlib\<close>: the suffix starts at the last
  dot of the name, unless that dot is the first or the last character. The paths that
  \<open>prepare_filename\<close> returns come from the templates \<open>OUTTMLP\<close> and
  \<open>OUTTMLP_PLAYLIST\<close>, which end in \<open>%(id)s.%(ext)s\<close>, so their name is not empty and
  \<open>with_suffix\<close> does not raise.
\<close>

record path =
  pdir :: string
  pname :: string

definition path_suffix :: "string \<Rightarrow> string" where
  "path_suffix name =
     (let k = length (takeWhile (\<lambda>c. c \<noteq> CHR ''.'') (rev name))
      in if CHR ''.'' \<in> set name \<and> 0 < k \<and> k + 1 < length name
         then drop (length name - k - 1) name else [])"

definition path_stem :: "string \<Rightarrow> string" where
  "path_stem name = take (length name - length (path_suffix name)) name"

definition with_suffix :: "path \<Rightarrow> string \<Rightarrow> path" where
  "with_suffix p sfx = p\<lparr>pname := path_stem (pname p) @ sfx\<rparr>"

section \<open>Data of a job\<close>

datatype format = M4A | MP3 | FLAC | WAV

fun format_name :: "format \<Rightarrow> string" where
  "format_name M4A = ''m4a''"
| "format_name MP3 = ''mp3''"
| "format_name FLAC = ''flac''"
| "format_name WAV = ''wav''"

text \<open>
  The entry dictionary of the fetcher: a key that is absent is \<open>None\<close>, a key that is
  present holds a string. \<open>local_path\<close> is \<open>ydl.prepare_filename(entry)\<close>.
\<close>

record entry =
  local_path :: path
  e_uploader :: "string option"
  e_title :: "string option"
  e_upload_date :: "string option"
  e_description :: "string option"
  e_webpage_url :: "string option"

text \<open>
  The \<open>track\<close> dictionary of a recognition response, read with the keys the program
  reads: \<open>title\<close>, \<open>subtitle\<close>, \<open>images.coverart\<close>, \<open>images.background\<close>,
  \<open>genres.primary\<close> and \<open>sections\<close>, a list of sections each with an optional
  \<open>metadata\<close> list of \<open>(title, text)\<close> items.
\<close>

record track =
  tr_title :: "string option"
  tr_subtitle :: "string option"
  tr_coverart :: "string option"
  tr_background :: "string option"
  tr_genre_primary :: "string option"
  tr_sections :: "(string option \<times> string option) list option list"

text \<open>
  The response of \<open>recognize_track\<close>: the empty dictionary, a non-empty dictionary
  without the key \<open>track\<close>, or a dictionary whose \<open>track\<close> is the empty dictionary
  (\<open>None\<close>) or a non-empty one.
\<close>

datatype result = Empty_Result | Without_Track | With_Track "track option"

record tags =
  nam :: string
  ART :: string
  alb :: string
  day :: string
  gen :: string
  desc :: string
  ldes :: string
  covr :: "string option"

text \<open>
  What the world outside the program answers while one entry is processed. An optional
  string is the message of the exception a call raised, \<open>None\<close> when the call
  succeeded; only \<open>cover_get\<close> is the image that \<open>requests.get\<close> returned,
  \<open>None\<close> when it raised. A run of ffmpeg that succeeds leaves its output file; a
  failed run may leave one behind. A deletion or a rename that succeeds changes the
  files on disk, one that fails changes nothing.
\<close>

record env =
  ffmpeg_temp :: "string option"
  ffmpeg_temp_leaves_file :: bool
  recognize :: "string + result"
  unlink_temp :: "string option"
  mp4_open :: "string option"
  cover_get :: "string option"
  save :: "string option"
  rename :: "string option"
  convert :: "string option"
  convert_leaves_file :: bool
  unlink_src :: "string option"

text \<open>
  What a job does that can be seen from outside, in order: the progress values it reports,
  the external calls it makes and the terminal call of \<open>finish_bar\<close>.
\<close>

datatype event =
    Progress int
  | Fetch string bool
  | Ffmpeg_Temp path path
  | Recognize path
  | Unlink path
  | MP4_Open path
  | Cover_Get string
  | Save path tags
  | Rename path path
  | Ffmpeg_Convert path path
  | Finish bool "string option" "string option"

record state =
  files :: "path set"
  trace :: "event list"

definition emit :: "event \<Rightarrow> state \<Rightarrow> state" where
  "emit ev st = st\<lparr>trace := trace st @ [ev]\<rparr>"

definition update_progress :: "int \<Rightarrow> state \<Rightarrow> state" where
  "update_progress val st = emit (Progress val) st"

text \<open>\<open>finish_bar\<close> (lines 223 to 238): the bar goes to 100, then the label is shown.\<close>

definition finish_bar :: "bool \<Rightarrow> string option \<Rightarrow> string option \<Rightarrow> state \<Rightarrow> state" where
  "finish_bar success filename error_msg st =
     emit (Finish success filename error_msg) (update_progress 100 st)"

text \<open>\<open>d.get(key, default)\<close> on an optional field.\<close>

definition get_or :: "'a option \<Rightarrow> 'a \<Rightarrow> 'a" where
  "get_or v dflt = (case v of None \<Rightarrow> dflt | Some x \<Rightarrow> x)"

text \<open>\<open>a or b\<close> on optional strings: \<open>a\<close> when it is a non-empty string, else \<open>b\<close>.\<close>

definition py_or :: "string option \<Rightarrow> string option \<Rightarrow> string option" where
  "py_or a b = (case a of None \<Rightarrow> b | Some s \<Rightarrow> if s = [] then b else Some s)"

definition truthy :: "string option \<Rightarrow> bool" where
  "truthy a = (case a of None \<Rightarrow> False | Some s \<Rightarrow> s \<noteq> [])"

section \<open>Recognition (\<open>process_entry\<close>, lines 365 to 404)\<close>

text \<open>
  The \<open>try\<close> converts the download to a temporary MP3 and recognises it; the
  \<open>except\<close> turns any failure into the empty result; the \<open>finally\<close> deletes the
  temporary file when it exists, and only logs a warning when the deletion fails.
\<close>

definition recognition_stage :: "env \<Rightarrow> path \<Rightarrow> path \<Rightarrow> state \<Rightarrow> result \<times> state" where
  "recognition_stage env downloaded_path temp_mp3_path st =
     (let st = emit (Ffmpeg_Temp downloaded_path temp_mp3_path) st;
          (result, st) =
            (case ffmpeg_temp env of
               Some e \<Rightarrow>
                 (Empty_Result,
                  update_progress 96
                    (if ffmpeg_temp_leaves_file env
                     then st\<lparr>files := insert temp_mp3_path (files st)\<rparr> else st))
             | None \<Rightarrow>
                 (let st = st\<lparr>files := insert temp_mp3_path (files st)\<rparr>;
                      st = emit (Recognize temp_mp3_path) st
                  in case recognize env of
                       Inl e \<Rightarrow> (Empty_Result, update_progress 96 st)
                     | Inr r \<Rightarrow> (r, update_progress 96 st)))
      in if temp_mp3_path \<in> files st
         then (let st = emit (Unlink temp_mp3_path) st
               in case unlink_temp env of
                    None \<Rightarrow> (result, st\<lparr>files := files st - {temp_mp3_path}\<rparr>)
                  | Some e \<Rightarrow> (result, st))
         else (result, st))"

section \<open>Metadata resolution and tagging (\<open>process_entry\<close>, lines 406 to 452)\<close>

definition empty_track :: track where
  "empty_track = \<lparr>tr_title = None, tr_subtitle = None, tr_coverart = None,
     tr_background = None, tr_genre_primary = None, tr_sections = []\<rparr>"

text \<open>\<open>result.get("track", {})\<close>.\<close>

definition track_data_of :: "result \<Rightarrow> track" where
  "track_data_of r = (case r of With_Track (Some tr) \<Rightarrow> tr | _ \<Rightarrow> empty_track)"

text \<open>\<open>not result or "track" not in result or not result["track"]\<close> (line 418).\<close>

definition no_track :: "result \<Rightarrow> bool" where
  "no_track r = (r = Empty_Result \<or> r = Without_Track \<or> r = With_Track None)"

text \<open>Lines 407, 408 and 410: the artist, the title and the cover of the tags.\<close>

definition resolve :: "string \<Rightarrow> string \<Rightarrow> track \<Rightarrow> string \<times> string \<times> string option" where
  "resolve uploader title track_data =
     (let artist = get_or (tr_subtitle track_data) uploader;
          song_title = get_or (tr_title track_data) title;
          cover_url = py_or (tr_coverart track_data) (tr_background track_data)
      in (artist, song_title, cover_url))"

definition py_lower_char :: "char \<Rightarrow> char" where
  "py_lower_char c =
     (let n = (of_char c :: nat)
      in if (65 \<le> n \<and> n \<le> 90) \<or> (192 \<le> n \<and> n \<le> 222 \<and> n \<noteq> 215)
         then char_of (n + 32) else c)"

definition py_lower :: "string \<Rightarrow> string" where
  "py_lower s = map py_lower_char s"

text \<open>The loop over \<open>sections[0]["metadata"]\<close> (lines 427 to 435).\<close>

fun apply_metadata ::
  "(string option \<times> string option) list \<Rightarrow> string \<times> string \<times> string \<Rightarrow> string \<times> string \<times> string" where
  "apply_metadata [] acc = acc"
| "apply_metadata ((t, x) # items) (album, year, genre) =
     (let key = py_lower (get_or t []); text = get_or x []
      in if key = ''album'' then apply_metadata items (text, year, genre)
         else if key \<in> {''released'', ''release date'', ''year''}
           then apply_metadata items (album, split_head ''-'' text, genre)
         else if key = ''genre'' then apply_metadata items (album, year, text)
         else apply_metadata items (album, year, genre))"

definition build_tags :: "entry \<Rightarrow> track \<Rightarrow> string \<Rightarrow> string \<Rightarrow> tags" where
  "build_tags entry track_data artist song_title =
     (let album = [];
          year = take 4 (get_or (e_upload_date entry) []);
          genre = [];
          genres_info = tr_genre_primary track_data;
          genre = (if truthy genres_info then get_or genres_info [] else genre);
          sections = tr_sections track_data;
          (album, year, genre) =
            (case sections of
               Some items # _ \<Rightarrow> apply_metadata items (album, year, genre)
             | _ \<Rightarrow> (album, year, genre))
      in \<lparr>nam = song_title, ART = artist, alb = album, day = year, gen = genre,
          desc = get_or (e_description entry) [], ldes = get_or (e_webpage_url entry) [],
          covr = None\<rparr>)"

text \<open>
  Lines 412 to 452: the container is opened and the tags are set in memory; without a
  track the method raises; else the remaining tags are set, the cover is fetched (a
  failure there is only logged) and the tags are saved. The result is the message of
  the exception that leaves the stage, if any.
\<close>

definition tagging_stage ::
  "env \<Rightarrow> entry \<Rightarrow> path \<Rightarrow> result \<Rightarrow> string \<Rightarrow> string \<Rightarrow> string option \<Rightarrow> state
     \<Rightarrow> string option \<times> state" where
  "tagging_stage env entry downloaded_path result artist song_title cover_url st =
     (let st = emit (MP4_Open downloaded_path) st
      in case mp4_open env of
           Some e \<Rightarrow> (Some e, st)
         | None \<Rightarrow>
             if no_track result
             then (Some ''Shazam recognition failed: No track info returned.'', st)
             else
               (let audio = build_tags entry (track_data_of result) artist song_title;
                    (audio, st) =
                      (if truthy cover_url
                       then (audio\<lparr>covr := cover_get env\<rparr>,
                             emit (Cover_Get (get_or cover_url [])) st)
                       else (audio, st));
                    st = emit (Save downloaded_path audio) st
                in case save env of
                     Some e \<Rightarrow> (Some e, st)
                   | None \<Rightarrow> (None, st)))"

section \<open>Renaming (\<open>process_entry\<close>, lines 454 to 468)\<close>

text \<open>
  The new path lies in the directory of the download, below \<open>out_dir\<close>, so
  \<open>relative_to\<close> in the logging call of line 464 does not raise. A rename that fails
  is logged and the method returns \<open>None\<close>.
\<close>

definition rename_stage ::
  "env \<Rightarrow> path \<Rightarrow> string \<Rightarrow> string \<Rightarrow> state \<Rightarrow> (string + path option) \<times> state" where
  "rename_stage env downloaded_path artist song_title st =
     (let new_path = downloaded_path\<lparr>pname := new_name artist song_title\<rparr>;
          st = emit (Rename downloaded_path new_path) st
      in case rename env of
           Some e \<Rightarrow> (Inr None, st)
         | None \<Rightarrow>
             (Inr (Some new_path),
              st\<lparr>files := insert new_path (files st - {downloaded_path})\<rparr>))"

section \<open>\<open>process_entry\<close> (lines 341 to 468)\<close>

text \<open>
  The result is \<open>Inl e\<close> when an exception with message \<open>e\<close> leaves the method,
  \<open>Inr None\<close> when it returns \<open>None\<close> and \<open>Inr (Some p)\<close> when it returns the
  path \<open>p\<close>. The job always passes \<open>update_progress\<close>.
\<close>

definition process_entry :: "env \<Rightarrow> entry \<Rightarrow> state \<Rightarrow> (string + path option) \<times> state" where
  "process_entry env entry st =
     (let downloaded_path = local_path entry
      in if downloaded_path \<notin> files st then (Inr None, st)
         else
           (let uploader = py_replace ''/'' ''_'' (get_or (e_uploader entry) ''Unknown'');
                raw_title = py_replace ''/'' ''_'' (get_or (e_title entry) ''Unknown'');
                title = clean_title uploader raw_title;
                st = update_progress 92 st;
                temp_mp3_path = with_suffix downloaded_path ''.temp.mp3'';
                (result, st) = recognition_stage env downloaded_path temp_mp3_path st;
                (artist, song_title, cover_url) =
                  resolve uploader title (track_data_of result)
            in case tagging_stage env entry downloaded_path result artist song_title
                      cover_url st of
                 (Some e, st) \<Rightarrow> (Inl e, st)
               | (None, st) \<Rightarrow> rename_stage env downloaded_path artist song_title st))"

section \<open>The job (\<open>download_url.job\<close>, lines 240 to 337)\<close>

text \<open>
  The progress hook is called by the fetcher. For a \<open>downloading\<close> status with a
  known total it reports \<open>int(downloaded / total * 100)\<close>; that floating point value
  is taken from the call (\<open>None\<close> when there is no total).
\<close>

datatype hook_call = Downloading "int option" | Finished | Other_Status

fun hook :: "hook_call \<Rightarrow> state \<Rightarrow> state" where
  "hook (Downloading (Some percent)) st = update_progress percent st"
| "hook (Downloading None) st = st"
| "hook Finished st = update_progress 90 st"
| "hook Other_Status st = st"

text \<open>
  The value of \<open>info\<close>: one entry, or the \<open>entries\<close> of a playlist, some of them
  \<open>None\<close>. Each entry comes with the answers of the world for it. With
  \<open>ignoreerrors\<close> the fetcher may also return \<open>None\<close> for \<open>info\<close>; then
  line 279 raises a \<open>TypeError\<close> outside every \<open>try\<close> and the job ends without
  a terminal event.
\<close>

datatype info = Single "entry \<times> env" | Playlist "(entry \<times> env) option list"

record fetched =
  hook_calls :: "hook_call list"
  on_disk :: "path set"
  returned :: "string + info option"

record world =
  allow_playlist :: bool
  format_var :: format
  extract_info :: "string \<Rightarrow> bool \<Rightarrow> fetched"

datatype outcome = Succeeded "string option" | Failed string | Crashed string

text \<open>Lines 290 to 323: what the job does with the path of a processed entry.\<close>

definition convert_step ::
  "env \<Rightarrow> format \<Rightarrow> path \<Rightarrow> state \<Rightarrow> (string + string) \<times> state" where
  "convert_step env selected_format result_path st =
     (if selected_format \<noteq> M4A
      then
        (let converted_path = with_suffix result_path (''.'' @ format_name selected_format);
             st = emit (Ffmpeg_Convert result_path converted_path) st
         in case convert env of
              Some e \<Rightarrow>
                (Inl e, if convert_leaves_file env
                        then st\<lparr>files := insert converted_path (files st)\<rparr> else st)
            | None \<Rightarrow>
                (let st = st\<lparr>files := insert converted_path (files st)\<rparr>;
                     st = emit (Unlink result_path) st
                 in case unlink_src env of
                      Some e \<Rightarrow> (Inl e, st)
                    | None \<Rightarrow>
                        (Inr (path_stem (pname converted_path)),
                         st\<lparr>files := files st - {result_path}\<rparr>)))
      else (Inr (path_stem (pname result_path)), st))"

text \<open>The loop over the entries (lines 283 to 337) and the end of the job.\<close>

fun run_entries ::
  "format \<Rightarrow> (entry \<times> env) list \<Rightarrow> string option \<Rightarrow> state \<Rightarrow> outcome \<times> state" where
  "run_entries selected_format [] final_filename st =
     (Succeeded final_filename, finish_bar True final_filename None (update_progress 100 st))"
| "run_entries selected_format ((entry, env) # entries) final_filename st =
     (let st = update_progress 90 st
      in case process_entry env entry st of
           (Inl e, st) \<Rightarrow>
             (Failed (''Tagging Error: '' @ e),
              finish_bar False None (Some (''Tagging Error: '' @ e)) st)
         | (Inr None, st) \<Rightarrow> run_entries selected_format entries final_filename st
         | (Inr (Some result_path), st) \<Rightarrow>
             (case convert_step env selected_format result_path st of
                (Inl e, st) \<Rightarrow>
                  (Failed (''Convert Error: '' @ e),
                   finish_bar False None (Some (''Convert Error: '' @ e)) st)
              | (Inr name, st) \<Rightarrow> run_entries selected_format entries (Some name) st))"

text \<open>Line 243 and line 245.\<close>

definition url_local :: "bool \<Rightarrow> string \<Rightarrow> string" where
  "url_local allow url = (if \<not> allow then split_head ''&list='' url else url)"

definition entries_of :: "info \<Rightarrow> (entry \<times> env) list" where
  "entries_of i = (case i of Playlist es \<Rightarrow> [e. Some e \<leftarrow> es] | Single e \<Rightarrow> [e])"

definition job :: "world \<Rightarrow> string \<Rightarrow> outcome \<times> state" where
  "job w url =
     (let st = update_progress 5 \<lparr>files = {}, trace = []\<rparr>;
          url_l = url_local (allow_playlist w) url;
          playlist_template = contains ''&list='' url_l;
          st = update_progress 10 st;
          st = emit (Fetch url_l playlist_template) st;
          f = extract_info w url_l playlist_template;
          st = fold hook (hook_calls f) st;
          st = st\<lparr>files := on_disk f\<rparr>
      in case returned f of
           Inl e \<Rightarrow>
             (Failed (''Download Error: '' @ e),
              finish_bar False None (Some (''Download Error: '' @ e)) st)
         | Inr None \<Rightarrow> (Crashed ''TypeError'', st)
         | Inr (Some i) \<Rightarrow> run_entries (format_var w) (entries_of i) None st)"

section \<open>Observations on a trace\<close>

definition progress_values :: "event list \<Rightarrow> int list" where
  "progress_values tr = concat (map (\<lambda>ev. case ev of Progress v \<Rightarrow> [v] | _ \<Rightarrow> []) tr)"

definition fetch_calls :: "event list \<Rightarrow> string list" where
  "fetch_calls tr = concat (map (\<lambda>ev. case ev of Fetch u t \<Rightarrow> [u] | _ \<Rightarrow> []) tr)"

definition convert_calls :: "event list \<Rightarrow> (path \<times> path) list" where
  "convert_calls tr =
     concat (map (\<lambda>ev. case ev of Ffmpeg_Convert a b \<Rightarrow> [(a, b)] | _ \<Rightarrow> []) tr)"

definition save_calls :: "event list \<Rightarrow> path list" where
  "save_calls tr = concat (map (\<lambda>ev. case ev of Save p t \<Rightarrow> [p] | _ \<Rightarrow> []) tr)"

definition rename_calls :: "event list \<Rightarrow> (path \<times> path) list" where
  "rename_calls tr = concat (map (\<lambda>ev. case ev of Rename a b \<Rightarrow> [(a, b)] | _ \<Rightarrow> []) tr)"

definition finish_calls :: "event list \<Rightarrow> event list" where
  "finish_calls tr = concat (map (\<lambda>ev. case ev of Finish s f e \<Rightarrow> [ev] | _ \<Rightarrow> []) tr)"

text \<open>The events that processing one entry can emit.\<close>

fun entry_event :: "event \<Rightarrow> bool" where
  "entry_event (Fetch u t) = False"
| "entry_event (Ffmpeg_Convert a b) = False"
| "entry_event (Finish s f e) = False"
| "entry_event ev = True"

text \<open>The result of the recognition stage, as the answers of the world decide it.\<close>

definition recognized :: "env \<Rightarrow> result" where
  "recognized env =
     (case ffmpeg_temp env of
        Some e \<Rightarrow> Empty_Result
      | None \<Rightarrow> (case recognize env of Inl e \<Rightarrow> Empty_Result | Inr r \<Rightarrow> r))"

text \<open>The artist, the title and the cover that \<open>process_entry\<close> resolves (lines 350 to 410).\<close>

definition resolved :: "env \<Rightarrow> entry \<Rightarrow> string \<times> string \<times> string option" where
  "resolved env entry =
     (let uploader = py_replace ''/'' ''_'' (get_or (e_uploader entry) ''Unknown'');
          raw_title = py_replace ''/'' ''_'' (get_or (e_title entry) ''Unknown'');
          title = clean_title uploader raw_title
      in resolve uploader title (track_data_of (recognized env)))"

text \<open>What the fetcher answers to a job, and the state of the job when it has answered.\<close>

definition fetched_of :: "world \<Rightarrow> string \<Rightarrow> fetched" where
  "fetched_of w url =
     extract_info w (url_local (allow_playlist w) url)
       (contains ''&list='' (url_local (allow_playlist w) url))"

definition after_fetch :: "world \<Rightarrow> string \<Rightarrow> state" where
  "after_fetch w url =
     (fold hook (hook_calls (fetched_of w url))
        (emit (Fetch (url_local (allow_playlist w) url)
                 (contains ''&list='' (url_local (allow_playlist w) url)))
           (update_progress 10 (update_progress 5 \<lparr>files = {}, trace = []\<rparr>))))
     \<lparr>files := on_disk (fetched_of w url)\<rparr>"

text \<open>The values that the progress hook reports for a list of calls.\<close>

definition hook_values :: "hook_call list \<Rightarrow> int list" where
  "hook_values hs =
     concat (map (\<lambda>h. case h of Downloading (Some p) \<Rightarrow> [p] | Finished \<Rightarrow> [90] | _ \<Rightarrow> []) hs)"

section \<open>A concrete job\<close>

text \<open>
  One video, downloaded to \<open>ytd_download/abc.m4a\<close>, recognised as the song
  \<open>Song\<close> by \<open>Artist\<close>; every external call succeeds in \<open>ok_env\<close>.
\<close>

definition ex_path :: path where
  "ex_path = \<lparr>pdir = ''ytd_download'', pname = ''abc.m4a''\<rparr>"

definition ex_entry :: entry where
  "ex_entry = \<lparr>local_path = ex_path, e_uploader = Some ''Artist'',
     e_title = Some ''Artist - Song [Official Video]'', e_upload_date = Some ''20200131'',
     e_description = None, e_webpage_url = Some ''https://x.test/watch?v=abc''\<rparr>"

definition ex_track :: track where
  "ex_track = \<lparr>tr_title = Some ''Song'', tr_subtitle = Some ''Artist'', tr_coverart = None,
     tr_background = None, tr_genre_primary = None, tr_sections = []\<rparr>"

definition ok_env :: env where
  "ok_env = \<lparr>ffmpeg_temp = None, ffmpeg_temp_leaves_file = False,
     recognize = Inr (With_Track (Some ex_track)), unlink_temp = None, mp4_open = None,
     cover_get = None, save = None, rename = None, convert = None,
     convert_leaves_file = False, unlink_src = None\<rparr>"

definition ex_world :: "format \<Rightarrow> hook_call list \<Rightarrow> info \<Rightarrow> world" where
  "ex_world fmt hooks i =
     \<lparr>allow_playlist = False, format_var = fmt,
      extract_info = (\<lambda>u t. \<lparr>hook_calls = hooks, on_disk = {ex_path},
                              returned = Inr (Some i)\<rparr>)\<rparr>"

definition ex_url :: string where
  "ex_url = ''https://x.test/watch?v=abc&list=XYZ''"

section \<open>Facts about the string operations\<close>

lemma py_replace_slash:
  "py_replace ''/'' ''_'' s = map (\<lambda>c. if c = CHR ''/'' then CHR ''_'' else c) s"
  by (induction s) auto

lemma contains_single: "contains [c] s = (c \<in> set s)"
  by (induction s) auto

lemma split_head_prefix: "prefix (split_head sep s) s"
  by (induction s) auto

lemma split_head_no_sep: "\<not> contains sep s \<Longrightarrow> split_head sep s = s"
  by (induction s) auto

lemma split_head_sep: "contains sep s \<Longrightarrow> sep \<noteq> [] \<Longrightarrow> prefix (split_head sep s @ sep) s"
  by (induction s) auto

lemma split_head_first: "i < length (split_head sep s) \<Longrightarrow> \<not> prefix sep (drop i s)"
proof (induction s arbitrary: i)
  case Nil
  then show ?case by simp
next
  case (Cons c cs)
  show ?case
  proof (cases "prefix sep (c # cs)")
    case True
    with Cons.prems show ?thesis by simp
  next
    case False
    show ?thesis
    proof (cases i)
      case 0
      with False show ?thesis by simp
    next
      case (Suc j)
      with Cons.prems False have "j < length (split_head sep cs)" by simp
      from Cons.IH[OF this] Suc show ?thesis by simp
    qed
  qed
qed

lemma py_replace_absent: "\<not> contains old s \<Longrightarrow> py_replace old new s = s"
proof (cases old)
  case Nil
  then show "\<not> contains old s \<Longrightarrow> py_replace old new s = s" by (cases s) auto
next
  case (Cons a as)
  show "\<not> contains old s \<Longrightarrow> py_replace old new s = s" unfolding Cons
    by (induction s) auto
qed

lemma py_replace_empty: "py_replace [] [] s = s"
  by (induction s) auto

lemma set_py_replace: "set (py_replace old [] s) \<subseteq> set s"
proof (induction old "[] :: string" s rule: py_replace.induct)
  case (1 s)
  then show ?case by (simp add: py_replace_empty del: py_replace.simps)
next
  case (2 a as)
  then show ?case by simp
next
  case (3 a as c cs)
  then show ?case using set_drop_subset[of "length as" cs] by auto
qed

lemma set_split_head: "set (split_head sep s) \<subseteq> set s"
  by (induction s) auto

lemma split_head_single: "c \<notin> set (split_head [c] s)"
  by (induction s) auto

lemma set_strip_where: "set (strip_where P s) \<subseteq> set s"
  by (auto simp: strip_where_def dest!: set_dropWhileD)

lemma last_dropWhile_keep:
  assumes "xs \<noteq> []" and "\<not> P (last xs)"
  shows "dropWhile P xs \<noteq> [] \<and> last (dropWhile P xs) = last xs"
proof -
  from assms have ne: "dropWhile P xs \<noteq> []"
    by (metis dropWhile_eq_Nil_conv last_in_set)
  have "xs = takeWhile P xs @ dropWhile P xs" by simp
  then have "last xs = last (dropWhile P xs)" using ne by (metis last_appendR)
  with ne show ?thesis by simp
qed

text \<open>Stripping is idempotent: what is left starts and ends outside the stripped set.\<close>

lemma strip_where_fix: "strip_where P (strip_where P s) = strip_where P s"
proof -
  let ?d = "dropWhile P s"
  let ?e = "dropWhile P (rev ?d)"
  have r: "strip_where P s = rev ?e" by (simp add: strip_where_def)
  have front: "dropWhile P (rev ?e) = rev ?e"
  proof (cases "?d = []")
    case True
    then show ?thesis by (simp only: rev.simps dropWhile.simps)
  next
    case False
    then have nP: "\<not> P (hd ?d)" by (metis hd_dropWhile)
    then have "\<not> P (last (rev ?d))" using False by (simp add: last_rev)
    with False have "?e \<noteq> [] \<and> last ?e = last (rev ?d)"
      using last_dropWhile_keep[of "rev ?d" P] by simp
    then have "rev ?e \<noteq> [] \<and> hd (rev ?e) = hd ?d" using False by (simp add: hd_rev last_rev)
    with nP show ?thesis by (simp add: dropWhile_eq_self_iff)
  qed
  have rear: "dropWhile P ?e = ?e" by simp
  show ?thesis unfolding r unfolding strip_where_def using front rear by simp
qed

section \<open>Facts about the stages of \<open>process_entry\<close>\<close>

lemma emit_simps [simp]:
  "trace (emit ev st) = trace st @ [ev]" "files (emit ev st) = files st"
  by (simp_all add: emit_def)

lemma update_progress_simps [simp]:
  "trace (update_progress v st) = trace st @ [Progress v]" "files (update_progress v st) = files st"
  by (simp_all add: update_progress_def)

lemma finish_bar_simps [simp]:
  "trace (finish_bar s f e st) = trace st @ [Progress 100, Finish s f e]"
  "files (finish_bar s f e st) = files st"
  by (simp_all add: finish_bar_def)

lemma recognition_stage_result: "fst (recognition_stage env dp t st) = recognized env"
  by (simp add: recognition_stage_def recognized_def Let_def split: option.splits sum.splits)

lemma recognition_stage_files:
  "files (snd (recognition_stage env dp t st)) - {t} = files st - {t}"
  by (auto simp: recognition_stage_def Let_def split: option.splits sum.splits)

lemma recognition_stage_unlinked:
  "unlink_temp env = None \<Longrightarrow> t \<notin> files (snd (recognition_stage env dp t st))"
  by (auto simp: recognition_stage_def Let_def split: option.splits sum.splits)

lemma recognition_stage_trace:
  "\<exists>evs. trace (snd (recognition_stage env dp t st)) = trace st @ evs \<and>
     (\<forall>ev \<in> set evs. entry_event ev) \<and> progress_values evs = [96] \<and>
     save_calls evs = [] \<and> rename_calls evs = []"
  by (auto simp: recognition_stage_def Let_def progress_values_def save_calls_def rename_calls_def split: option.splits sum.splits)


lemma stem_suffix: "path_stem n @ path_suffix n = n"
proof (cases "path_suffix n = []")
  case True
  then show ?thesis by (simp add: path_stem_def)
next
  case False
  let ?k = "length (takeWhile (\<lambda>c. c \<noteq> CHR ''.'') (rev n))"
  from False have c: "0 < ?k \<and> ?k + 1 < length n" and s: "path_suffix n = drop (length n - ?k - 1) n"
    by (auto simp: path_suffix_def Let_def split: if_splits)
  have "length (path_suffix n) = ?k + 1" using c unfolding s by simp
  then have "path_stem n = take (length n - ?k - 1) n" by (simp add: path_stem_def)
  then show ?thesis unfolding s by simp
qed

lemma path_suffix_shape:
  "path_suffix n = [] \<or> (\<exists>r. path_suffix n = CHR ''.'' # r \<and> CHR ''.'' \<notin> set r)"
proof (cases "path_suffix n = []")
  case True
  then show ?thesis by simp
next
  case False
  let ?tw = "takeWhile (\<lambda>c. c \<noteq> CHR ''.'') (rev n)"
  let ?k = "length ?tw"
  from False have c: "CHR ''.'' \<in> set n" "0 < ?k" "?k + 1 < length n"
    and s: "path_suffix n = drop (length n - ?k - 1) n"
    by (auto simp: path_suffix_def Let_def split: if_splits)
  have "rev n = ?tw @ dropWhile (\<lambda>c. c \<noteq> CHR ''.'') (rev n)" by simp
  moreover have "dropWhile (\<lambda>c. c \<noteq> CHR ''.'') (rev n) \<noteq> []" using c(1) by (simp add: dropWhile_eq_Nil_conv)
  moreover have "hd (dropWhile (\<lambda>c. c \<noteq> CHR ''.'') (rev n)) = CHR ''.''"
    using c(1) hd_dropWhile[of "\<lambda>c. c \<noteq> CHR ''.''" "rev n"] by (simp add: dropWhile_eq_Nil_conv)
  ultimately obtain d where d: "rev n = ?tw @ CHR ''.'' # d"
    by (metis list.collapse)
  then have n: "n = rev d @ CHR ''.'' # rev ?tw" by (metis rev_append rev.simps(2) rev_rev_ident append.assoc append_Cons append_Nil)
  have ld: "length n = length d + 1 + ?k" using arg_cong[OF n, of length] by simp
  have "drop (length n - ?k - 1) n = CHR ''.'' # rev ?tw"
    using ld by (subst (2) n) simp
  moreover have "CHR ''.'' \<notin> set (rev ?tw)" using set_takeWhileD[of "CHR ''.''" "\<lambda>c. c \<noteq> CHR ''.''" "rev n"] by auto
  ultimately show ?thesis unfolding s by blast
qed

lemma with_suffix_temp_neq: "with_suffix p ''.temp.mp3'' \<noteq> p"
proof
  assume "with_suffix p ''.temp.mp3'' = p"
  then have "pname (with_suffix p ''.temp.mp3'') = pname p" by simp
  then have "path_stem (pname p) @ ''.temp.mp3'' = path_stem (pname p) @ path_suffix (pname p)"
    by (simp add: with_suffix_def stem_suffix)
  then have e: "path_suffix (pname p) = ''.temp.mp3''" by simp
  from path_suffix_shape[of "pname p"] show False unfolding e by auto
qed

lemma last_with_suffix: "sfx \<noteq> [] \<Longrightarrow> last (pname (with_suffix p sfx)) = last sfx"
  by (simp add: with_suffix_def)

lemma last_new_name: "last (new_name a t) = CHR ''a''"
  by (simp add: new_name_def Let_def)


lemma process_entry_skip:
  "local_path entry \<notin> files st \<Longrightarrow> process_entry env entry st = (Inr None, st)"
  by (simp add: process_entry_def)

lemma resolve_cases: "\<exists>a t c. resolve u ti td = (a, t, c)"
  by (simp add: resolve_def Let_def)

lemma tagging_stage_files: "files (snd (tagging_stage env entry dp r a t c st)) = files st"
  by (simp add: tagging_stage_def Let_def split: option.splits)

lemma tagging_stage_trace:
  "\<exists>evs. trace (snd (tagging_stage env entry dp r a t c st)) = trace st @ evs \<and>
     (\<forall>ev \<in> set evs. entry_event ev) \<and> progress_values evs = [] \<and> rename_calls evs = []"
  by (simp add: tagging_stage_def Let_def progress_values_def rename_calls_def split: option.splits)


lemma rename_stage_trace:
  "trace (snd (rename_stage env dp a t st)) = trace st @ [Rename dp (dp\<lparr>pname := new_name a t\<rparr>)]"
  by (simp add: rename_stage_def Let_def split: option.splits)

lemma rename_stage_files:
  "files (snd (rename_stage env dp a t st)) =
     (case rename env of Some e \<Rightarrow> files st
      | None \<Rightarrow> insert (dp\<lparr>pname := new_name a t\<rparr>) (files st - {dp}))"
  by (simp add: rename_stage_def Let_def split: option.splits)

lemma rename_stage_result:
  "fst (rename_stage env dp a t st) =
     (case rename env of Some e \<Rightarrow> Inr None | None \<Rightarrow> Inr (Some (dp\<lparr>pname := new_name a t\<rparr>)))"
  by (simp add: rename_stage_def Let_def split: option.splits)


lemma process_entry_stages:
  assumes "local_path entry \<in> files st"
  shows "\<exists>a t c. process_entry env entry st =
     (case fst (tagging_stage env entry (local_path entry) (recognized env) a t c
                 (snd (recognition_stage env (local_path entry)
                        (with_suffix (local_path entry) ''.temp.mp3'') (update_progress 92 st)))) of
        Some e \<Rightarrow>
          (Inl e, snd (tagging_stage env entry (local_path entry) (recognized env) a t c
                 (snd (recognition_stage env (local_path entry)
                        (with_suffix (local_path entry) ''.temp.mp3'') (update_progress 92 st)))))
      | None \<Rightarrow>
          rename_stage env (local_path entry) a t
            (snd (tagging_stage env entry (local_path entry) (recognized env) a t c
                 (snd (recognition_stage env (local_path entry)
                        (with_suffix (local_path entry) ''.temp.mp3'') (update_progress 92 st))))))"
proof -
  let ?rs = "recognition_stage env (local_path entry)
               (with_suffix (local_path entry) ''.temp.mp3'') (update_progress 92 st)"
  let ?rv = "resolve (py_replace ''/'' ''_'' (get_or (e_uploader entry) ''Unknown''))
               (clean_title (py_replace ''/'' ''_'' (get_or (e_uploader entry) ''Unknown''))
                  (py_replace ''/'' ''_'' (get_or (e_title entry) ''Unknown'')))
               (track_data_of (fst ?rs))"
  let ?ts = "tagging_stage env entry (local_path entry) (fst ?rs) (fst ?rv) (fst (snd ?rv))
               (snd (snd ?rv)) (snd ?rs)"
  have "process_entry env entry st =
      (case fst ?ts of Some e \<Rightarrow> (Inl e, snd ?ts)
       | None \<Rightarrow> rename_stage env (local_path entry) (fst ?rv) (fst (snd ?rv)) (snd ?ts))"
    using assms
    by (simp add: process_entry_def Let_def case_prod_beta split: option.splits)
  then show ?thesis unfolding recognition_stage_result by blast
qed

lemma proj_append:
  "progress_values (xs @ ys) = progress_values xs @ progress_values ys"
  "save_calls (xs @ ys) = save_calls xs @ save_calls ys"
  "rename_calls (xs @ ys) = rename_calls xs @ rename_calls ys"
  "fetch_calls (xs @ ys) = fetch_calls xs @ fetch_calls ys"
  "convert_calls (xs @ ys) = convert_calls xs @ convert_calls ys"
  "finish_calls (xs @ ys) = finish_calls xs @ finish_calls ys"
  by (simp_all add: progress_values_def save_calls_def rename_calls_def fetch_calls_def
      convert_calls_def finish_calls_def)

lemma process_entry_trace:
  "\<exists>evs. trace (snd (process_entry env entry st)) = trace st @ evs \<and>
     (\<forall>ev \<in> set evs. entry_event ev) \<and>
     (progress_values evs = [] \<or> progress_values evs = [92, 96])"
proof (cases "local_path entry \<in> files st")
  case False
  then show ?thesis by (simp add: process_entry_skip progress_values_def)
next
  case True
  let ?dp = "local_path entry"
  let ?st2 = "snd (recognition_stage env ?dp (with_suffix ?dp ''.temp.mp3'') (update_progress 92 st))"
  from process_entry_stages[OF True, of env] obtain a t c where
    pe: "process_entry env entry st =
      (case fst (tagging_stage env entry ?dp (recognized env) a t c ?st2) of
         Some e \<Rightarrow> (Inl e, snd (tagging_stage env entry ?dp (recognized env) a t c ?st2))
       | None \<Rightarrow> rename_stage env ?dp a t (snd (tagging_stage env entry ?dp (recognized env) a t c ?st2)))"
    by blast
  let ?st3 = "snd (tagging_stage env entry ?dp (recognized env) a t c ?st2)"
  from recognition_stage_trace[of env ?dp "with_suffix ?dp ''.temp.mp3''" "update_progress 92 st"]
  obtain e1 where e1: "trace ?st2 = trace st @ Progress 92 # e1" "\<forall>ev \<in> set e1. entry_event ev"
    "progress_values e1 = [96]" by auto
  from tagging_stage_trace[of env entry ?dp "recognized env" a t c ?st2]
  obtain e2 where e2: "trace ?st3 = trace ?st2 @ e2" "\<forall>ev \<in> set e2. entry_event ev"
    "progress_values e2 = []" by auto
  have p1: "progress_values (Progress 92 # e1 @ e2) = [92, 96]"
    using e1(3) e2(3) proj_append(1)[of "[Progress 92]" "e1 @ e2"] proj_append(1)[of e1 e2]
    by (simp add: progress_values_def)
  show ?thesis
  proof (cases "fst (tagging_stage env entry ?dp (recognized env) a t c ?st2)")
    case (Some e)
    then have "trace (snd (process_entry env entry st)) = trace st @ (Progress 92 # e1 @ e2)"
      using e1(1) e2(1) by (simp add: pe)
    moreover have "\<forall>ev \<in> set (Progress 92 # e1 @ e2). entry_event ev" using e1(2) e2(2) by auto
    ultimately show ?thesis using p1 by blast
  next
    case None
    let ?r = "Rename ?dp (?dp\<lparr>pname := new_name a t\<rparr>)"
    from None have "trace (snd (process_entry env entry st)) = trace st @ ((Progress 92 # e1 @ e2) @ [?r])"
      using e1(1) e2(1) by (simp add: pe rename_stage_trace)
    moreover have "\<forall>ev \<in> set ((Progress 92 # e1 @ e2) @ [?r]). entry_event ev" using e1(2) e2(2) by auto
    moreover have "progress_values ((Progress 92 # e1 @ e2) @ [?r]) = [92, 96]"
      unfolding proj_append(1)[of "Progress 92 # e1 @ e2" "[?r]"] p1 by (simp add: progress_values_def)
    ultimately show ?thesis by blast
  qed
qed

lemma recognition_stage_member:
  "p \<noteq> t \<Longrightarrow> (p \<in> files (snd (recognition_stage env dp t st))) = (p \<in> files st)"
  by (auto simp: recognition_stage_def Let_def split: option.splits sum.splits)



lemma process_entry_eq:
  assumes "local_path entry \<in> files st"
  shows "process_entry env entry st =
     (case fst (tagging_stage env entry (local_path entry) (recognized env)
                 (fst (resolved env entry)) (fst (snd (resolved env entry)))
                 (snd (snd (resolved env entry)))
                 (snd (recognition_stage env (local_path entry)
                        (with_suffix (local_path entry) ''.temp.mp3'') (update_progress 92 st)))) of
        Some e \<Rightarrow>
          (Inl e, snd (tagging_stage env entry (local_path entry) (recognized env)
                 (fst (resolved env entry)) (fst (snd (resolved env entry)))
                 (snd (snd (resolved env entry)))
                 (snd (recognition_stage env (local_path entry)
                        (with_suffix (local_path entry) ''.temp.mp3'') (update_progress 92 st)))))
      | None \<Rightarrow>
          rename_stage env (local_path entry) (fst (resolved env entry))
            (fst (snd (resolved env entry)))
            (snd (tagging_stage env entry (local_path entry) (recognized env)
                 (fst (resolved env entry)) (fst (snd (resolved env entry)))
                 (snd (snd (resolved env entry)))
                 (snd (recognition_stage env (local_path entry)
                        (with_suffix (local_path entry) ''.temp.mp3'') (update_progress 92 st))))))"
  using assms
  by (simp add: process_entry_def resolved_def Let_def case_prod_beta recognition_stage_result
      split: option.splits)


lemma tagging_stage_ok:
  assumes "\<not> no_track r" and "mp4_open env = None" and "save env = None"
  shows "fst (tagging_stage env entry dp r a t c st) = None"
    and "save_calls (trace (snd (tagging_stage env entry dp r a t c st))) =
           save_calls (trace st) @ [dp]"
  using assms
  by (simp_all add: tagging_stage_def Let_def save_calls_def case_prod_beta)

lemma recognition_stage_saves:
  "save_calls (trace (snd (recognition_stage env dp t st))) = save_calls (trace st)"
  using recognition_stage_trace[of env dp t st] by (auto simp: proj_append)

lemma process_entry_facts:
  assumes ex: "local_path entry \<in> files st"
  shows "p \<in> files (snd (process_entry env entry st)) \<Longrightarrow> p \<notin> files st \<Longrightarrow>
           (p = with_suffix (local_path entry) ''.temp.mp3'' \<and> unlink_temp env \<noteq> None) \<or>
           p = (local_path entry)\<lparr>pname := new_name (fst (resolved env entry))
                                               (fst (snd (resolved env entry)))\<rparr>"
    and "unlink_temp env = None \<Longrightarrow>
           with_suffix (local_path entry) ''.temp.mp3'' \<notin> files (snd (process_entry env entry st))"
    and "fst (process_entry env entry st) = Inr (Some rp) \<Longrightarrow>
           rp = (local_path entry)\<lparr>pname := new_name (fst (resolved env entry))
                                               (fst (snd (resolved env entry)))\<rparr> \<and>
           rp \<in> files (snd (process_entry env entry st)) \<and> rename env = None"
    and "\<not> no_track (recognized env) \<Longrightarrow> mp4_open env = None \<Longrightarrow> save env = None \<Longrightarrow>
           fst (process_entry env entry st) =
             (case rename env of Some e \<Rightarrow> Inr None
              | None \<Rightarrow> Inr (Some ((local_path entry)\<lparr>pname := new_name (fst (resolved env entry))
                                               (fst (snd (resolved env entry)))\<rparr>))) \<and>
           save_calls (trace (snd (process_entry env entry st))) =
             save_calls (trace st) @ [local_path entry] \<and>
           (rename env \<noteq> None \<longrightarrow> local_path entry \<in> files (snd (process_entry env entry st)))"
proof -
  define dp where "dp = local_path entry"
  define tp where "tp = with_suffix dp ''.temp.mp3''"
  define a where "a = fst (resolved env entry)"
  define t where "t = fst (snd (resolved env entry))"
  define c where "c = snd (snd (resolved env entry))"
  define np where "np = dp\<lparr>pname := new_name a t\<rparr>"
  define st2 where "st2 = snd (recognition_stage env dp tp (update_progress 92 st))"
  define ts where "ts = tagging_stage env entry dp (recognized env) a t c st2"
  have pe: "process_entry env entry st =
      (case fst ts of Some e \<Rightarrow> (Inl e, snd ts) | None \<Rightarrow> rename_stage env dp a t (snd ts))"
    unfolding ts_def a_def t_def c_def st2_def tp_def dp_def by (rule process_entry_eq[OF ex])
  have f3: "files (snd ts) = files st2" unfolding ts_def by (rule tagging_stage_files)
  have m: "\<And>q. q \<noteq> tp \<Longrightarrow> (q \<in> files st2) = (q \<in> files st)"
    unfolding st2_def using recognition_stage_member[of _ tp env dp "update_progress 92 st"] by simp
  have u: "unlink_temp env = None \<Longrightarrow> tp \<notin> files st2"
    unfolding st2_def by (rule recognition_stage_unlinked)
  have ne: "dp \<noteq> tp" unfolding tp_def using with_suffix_temp_neq[of dp] by simp
  have "last (pname np) = CHR ''a''" unfolding np_def by (simp add: last_new_name)
  moreover have "last (pname tp) = CHR ''3''" unfolding tp_def by (simp add: last_with_suffix)
  ultimately have nt: "np \<noteq> tp" by auto
  have fs: "files (snd (process_entry env entry st)) =
      (case fst ts of Some e \<Rightarrow> files st2
       | None \<Rightarrow> (case rename env of Some e \<Rightarrow> files st2 | None \<Rightarrow> insert np (files st2 - {dp})))"
    unfolding pe np_def by (simp add: rename_stage_files f3 split: option.splits)
  have r1: "p \<in> files (snd (process_entry env entry st)) \<Longrightarrow> p \<notin> files st \<Longrightarrow>
           (p = tp \<and> unlink_temp env \<noteq> None) \<or> p = np"
  proof -
    assume a1: "p \<in> files (snd (process_entry env entry st))" and a2: "p \<notin> files st"
    from a1 have "p \<in> files st2 \<or> p = np" unfolding fs by (auto split: option.splits)
    moreover have "p \<in> files st2 \<Longrightarrow> p = tp \<and> unlink_temp env \<noteq> None"
      using m[of p] u a2 by blast
    ultimately show ?thesis by blast
  qed
  have r2: "unlink_temp env = None \<Longrightarrow> tp \<notin> files (snd (process_entry env entry st))"
    unfolding fs using u nt by (auto split: option.splits)
  have r3: "fst (process_entry env entry st) = Inr (Some rp) \<Longrightarrow>
           rp = np \<and> rp \<in> files (snd (process_entry env entry st)) \<and> rename env = None"
    unfolding fs unfolding pe np_def
    by (cases "fst ts"; cases "rename env") (simp_all add: rename_stage_result)
  have r4: "\<not> no_track (recognized env) \<Longrightarrow> mp4_open env = None \<Longrightarrow> save env = None \<Longrightarrow>
           fst (process_entry env entry st) =
             (case rename env of Some e \<Rightarrow> Inr None | None \<Rightarrow> Inr (Some np)) \<and>
           save_calls (trace (snd (process_entry env entry st))) = save_calls (trace st) @ [dp] \<and>
           (rename env \<noteq> None \<longrightarrow> dp \<in> files (snd (process_entry env entry st)))"
  proof -
    assume h: "\<not> no_track (recognized env)" "mp4_open env = None" "save env = None"
    have x: "fst ts = None" unfolding ts_def by (rule tagging_stage_ok(1)[OF h])
    have sv: "save_calls (trace (snd ts)) = save_calls (trace st2) @ [dp]"
      unfolding ts_def by (rule tagging_stage_ok(2)[OF h])
    have "save_calls (trace (update_progress 92 st)) = save_calls (trace st)"
      by (simp add: save_calls_def)
    then have sv2: "save_calls (trace st2) = save_calls (trace st)"
      unfolding st2_def recognition_stage_saves .
    have pe2: "process_entry env entry st = rename_stage env dp a t (snd ts)"
      unfolding pe x by simp
    have trs: "save_calls (trace (snd (rename_stage env dp a t (snd ts)))) =
        save_calls (trace st) @ [dp]"
      unfolding rename_stage_trace proj_append sv sv2 by (simp add: save_calls_def)
    have "dp \<in> files st2" using m[of dp] ne ex by (simp add: dp_def)
    then show ?thesis
      unfolding fs x unfolding pe2 np_def trs
      by (simp add: rename_stage_result split: option.splits)
  qed
  show "p \<in> files (snd (process_entry env entry st)) \<Longrightarrow> p \<notin> files st \<Longrightarrow>
           (p = with_suffix (local_path entry) ''.temp.mp3'' \<and> unlink_temp env \<noteq> None) \<or>
           p = (local_path entry)\<lparr>pname := new_name (fst (resolved env entry))
                                               (fst (snd (resolved env entry)))\<rparr>"
    using r1 unfolding np_def tp_def dp_def a_def t_def .
  show "unlink_temp env = None \<Longrightarrow>
           with_suffix (local_path entry) ''.temp.mp3'' \<notin> files (snd (process_entry env entry st))"
    using r2 unfolding tp_def dp_def .
  show "fst (process_entry env entry st) = Inr (Some rp) \<Longrightarrow>
           rp = (local_path entry)\<lparr>pname := new_name (fst (resolved env entry))
                                               (fst (snd (resolved env entry)))\<rparr> \<and>
           rp \<in> files (snd (process_entry env entry st)) \<and> rename env = None"
    using r3 unfolding np_def dp_def a_def t_def .
  show "\<not> no_track (recognized env) \<Longrightarrow> mp4_open env = None \<Longrightarrow> save env = None \<Longrightarrow>
           fst (process_entry env entry st) =
             (case rename env of Some e \<Rightarrow> Inr None
              | None \<Rightarrow> Inr (Some ((local_path entry)\<lparr>pname := new_name (fst (resolved env entry))
                                               (fst (snd (resolved env entry)))\<rparr>))) \<and>
           save_calls (trace (snd (process_entry env entry st))) =
             save_calls (trace st) @ [local_path entry] \<and>
           (rename env \<noteq> None \<longrightarrow> local_path entry \<in> files (snd (process_entry env entry st)))"
    using r4 unfolding np_def dp_def a_def t_def .
qed

section \<open>Facts about the conversion and the loop over the entries\<close>


lemma convert_step_trace:
  "trace (snd (convert_step env fmt rp st)) = trace st @
     (if fmt = M4A then []
      else Ffmpeg_Convert rp (with_suffix rp (''.'' @ format_name fmt)) #
           (if convert env = None then [Unlink rp] else []))"
  by (simp add: convert_step_def Let_def split: option.splits)





lemma run_entries_Cons_cases:
  obtains (tag_err) e st1 where
      "process_entry env entry (update_progress 90 st) = (Inl e, st1)"
      "run_entries fmt ((entry, env) # rest) fin st =
         (Failed (''Tagging Error: '' @ e),
          finish_bar False None (Some (''Tagging Error: '' @ e)) st1)"
  | (skip) st1 where
      "process_entry env entry (update_progress 90 st) = (Inr None, st1)"
      "run_entries fmt ((entry, env) # rest) fin st = run_entries fmt rest fin st1"
  | (conv_err) rp st1 e st2 where
      "process_entry env entry (update_progress 90 st) = (Inr (Some rp), st1)"
      "convert_step env fmt rp st1 = (Inl e, st2)"
      "run_entries fmt ((entry, env) # rest) fin st =
         (Failed (''Convert Error: '' @ e),
          finish_bar False None (Some (''Convert Error: '' @ e)) st2)"
  | (ok) rp st1 name st2 where
      "process_entry env entry (update_progress 90 st) = (Inr (Some rp), st1)"
      "convert_step env fmt rp st1 = (Inr name, st2)"
      "run_entries fmt ((entry, env) # rest) fin st = run_entries fmt rest (Some name) st2"
proof -
  obtain r st1 where pe: "process_entry env entry (update_progress 90 st) = (r, st1)"
    by (cases "process_entry env entry (update_progress 90 st)")
  show thesis
  proof (cases r)
    case (Inl e)
    show thesis by (rule tag_err[of e st1]) (simp_all add: pe Inl)
  next
    case (Inr res)
    show thesis
    proof (cases res)
      case None
      show thesis by (rule skip[of st1]) (simp_all add: pe Inr None)
    next
      case (Some rp)
      obtain c st2 where cs: "convert_step env fmt rp st1 = (c, st2)"
        by (cases "convert_step env fmt rp st1")
      show thesis
      proof (cases c)
        case (Inl e)
        show thesis by (rule conv_err[of rp st1 e st2]) (simp_all add: pe Inr Some cs Inl)
      next
        case Inr2: (Inr name)
        show thesis by (rule ok[of rp st1 name st2]) (simp_all add: pe Inr Some cs Inr2)
      qed
    qed
  qed
qed

lemma entry_events_quiet:
  "\<forall>ev \<in> set evs. entry_event ev \<Longrightarrow>
     fetch_calls evs = [] \<and> convert_calls evs = [] \<and> finish_calls evs = []"
proof (induction evs)
  case Nil
  then show ?case by (simp add: fetch_calls_def convert_calls_def finish_calls_def)
next
  case (Cons ev evs)
  then have "entry_event ev" and ih: "fetch_calls evs = [] \<and> convert_calls evs = [] \<and> finish_calls evs = []"
    by simp_all
  from \<open>entry_event ev\<close> have "fetch_calls [ev] = [] \<and> convert_calls [ev] = [] \<and> finish_calls [ev] = []"
    by (cases ev) (simp_all add: fetch_calls_def convert_calls_def finish_calls_def)
  with ih show ?case using proj_append(4,5,6)[of "[ev]" evs] by simp
qed

lemma process_entry_fetch_convert:
  "fetch_calls (trace (snd (process_entry env entry st))) = fetch_calls (trace st)"
  "convert_calls (trace (snd (process_entry env entry st))) = convert_calls (trace st)"
proof -
  from process_entry_trace[of env entry st] obtain evs where
    e: "trace (snd (process_entry env entry st)) = trace st @ evs" "\<forall>ev \<in> set evs. entry_event ev"
    by blast
  from entry_events_quiet[OF e(2)] show
    "fetch_calls (trace (snd (process_entry env entry st))) = fetch_calls (trace st)"
    "convert_calls (trace (snd (process_entry env entry st))) = convert_calls (trace st)"
    unfolding e(1) proj_append by simp_all
qed

lemma convert_step_fetch:
  "fetch_calls (trace (snd (convert_step env fmt rp st))) = fetch_calls (trace st)"
  unfolding convert_step_trace proj_append by (simp add: fetch_calls_def)


lemma proj_snoc [simp]:
  "fetch_calls (tr @ [Progress v]) = fetch_calls tr"
  "convert_calls (tr @ [Progress v]) = convert_calls tr"
  "fetch_calls (tr @ [Progress v, Finish s f e]) = fetch_calls tr"
  "convert_calls (tr @ [Progress v, Finish s f e]) = convert_calls tr"
  by (simp_all add: fetch_calls_def convert_calls_def)

lemma run_entries_fetch:
  "fetch_calls (trace (snd (run_entries fmt es fin st))) = fetch_calls (trace st)"
proof (induction es arbitrary: fin st)
  case Nil
  show ?case by (simp add: fetch_calls_def)
next
  case (Cons x es)
  obtain entry env where x: "x = (entry, env)" by (cases x)
  have pf: "\<And>r s1. process_entry env entry (update_progress 90 st) = (r, s1) \<Longrightarrow>
      fetch_calls (trace s1) = fetch_calls (trace st)"
    using process_entry_fetch_convert(1)[of env entry "update_progress 90 st"] by simp
  have cf: "\<And>rp s1 c s2. convert_step env fmt rp s1 = (c, s2) \<Longrightarrow>
      fetch_calls (trace s2) = fetch_calls (trace s1)"
    using convert_step_fetch by (metis snd_conv)
  show ?case
  proof (cases rule: run_entries_Cons_cases[of env entry st fmt es fin])
    case (tag_err e st1)
    then show ?thesis using pf by (simp add: x)
  next
    case (skip st1)
    then show ?thesis using pf Cons.IH by (simp add: x)
  next
    case (conv_err rp st1 e st2)
    then show ?thesis using pf cf by (simp add: x)
  next
    case (ok rp st1 name st2)
    then show ?thesis using pf cf Cons.IH by (simp add: x)
  qed
qed



section \<open>Facts about the job\<close>

lemma job_unfold:
  "job w url =
     (case returned (fetched_of w url) of
        Inl e \<Rightarrow>
          (Failed (''Download Error: '' @ e),
           finish_bar False None (Some (''Download Error: '' @ e)) (after_fetch w url))
      | Inr None \<Rightarrow> (Crashed ''TypeError'', after_fetch w url)
      | Inr (Some i) \<Rightarrow>
          run_entries (format_var w) (entries_of i) None (after_fetch w url))"
  unfolding job_def Let_def after_fetch_def fetched_of_def ..

lemma hook_quiet:
  "fetch_calls (trace (hook h st)) = fetch_calls (trace st)"
  "convert_calls (trace (hook h st)) = convert_calls (trace st)"
  "progress_values (trace (hook h st)) = progress_values (trace st) @ hook_values [h]"
proof -
  show "fetch_calls (trace (hook h st)) = fetch_calls (trace st)"
  proof (cases h)
    case (Downloading x)
    then show ?thesis by (cases x) simp_all
  qed simp_all
  show "convert_calls (trace (hook h st)) = convert_calls (trace st)"
  proof (cases h)
    case (Downloading x)
    then show ?thesis by (cases x) simp_all
  qed simp_all
  show "progress_values (trace (hook h st)) = progress_values (trace st) @ hook_values [h]"
  proof (cases h)
    case (Downloading x)
    then show ?thesis by (cases x) (simp_all add: proj_append hook_values_def progress_values_def)
  qed (simp_all add: proj_append hook_values_def progress_values_def)
qed

lemma hook_values_Cons: "hook_values (h # hs) = hook_values [h] @ hook_values hs"
  by (simp add: hook_values_def)

lemma fold_hook_quiet:
  "fetch_calls (trace (fold hook hs st)) = fetch_calls (trace st)"
  "convert_calls (trace (fold hook hs st)) = convert_calls (trace st)"
  "progress_values (trace (fold hook hs st)) = progress_values (trace st) @ hook_values hs"
proof -
  show "fetch_calls (trace (fold hook hs st)) = fetch_calls (trace st)"
    by (induction hs arbitrary: st) (simp_all add: hook_quiet)
  show "convert_calls (trace (fold hook hs st)) = convert_calls (trace st)"
    by (induction hs arbitrary: st) (simp_all add: hook_quiet)
  show "progress_values (trace (fold hook hs st)) = progress_values (trace st) @ hook_values hs"
  proof (induction hs arbitrary: st)
    case Nil
    show ?case by (simp add: hook_values_def)
  next
    case (Cons h hs)
    show ?case using Cons.IH[of "hook h st"] hook_values_Cons[of h hs]
      by (simp add: hook_quiet)
  qed
qed

lemma after_fetch_calls:
  "fetch_calls (trace (after_fetch w url)) = [url_local (allow_playlist w) url]"
  "convert_calls (trace (after_fetch w url)) = []"
  "progress_values (trace (after_fetch w url)) = [5, 10] @ hook_values (hook_calls (fetched_of w url))"
  "files (after_fetch w url) = on_disk (fetched_of w url)"
  by (simp_all add: after_fetch_def fold_hook_quiet)
     (simp_all add: fetch_calls_def convert_calls_def progress_values_def)

lemma job_fetch_calls:
  "fetch_calls (trace (snd (job w url))) = [url_local (allow_playlist w) url]"
  unfolding job_unfold
  using after_fetch_calls(1)[of w url] run_entries_fetch[of "format_var w" _ None "after_fetch w url"]
  by (simp split: sum.splits option.splits)


section \<open>The namer\<close>

text \<open>
  C8. The file name is \<open>"{artist} - {title}.m4a"\<close> with every \<open>/\<close> of the artist and of
  the title turned into \<open>_\<close>, and with a closing parenthesis appended to the title when
  it has an opening parenthesis and no closing one. The artist \<open>A/B\<close> and the title
  \<open>Song (Live\<close> give \<open>A_B - Song (Live).m4a\<close>, whose base name is \<open>A_B - Song (Live)\<close>.
\<close>

theorem namer_filename:
  "new_name artist song_title =
     map (\<lambda>c. if c = CHR ''/'' then CHR ''_'' else c) artist @ '' - '' @
     map (\<lambda>c. if c = CHR ''/'' then CHR ''_'' else c) song_title @
     (if CHR ''('' \<in> set song_title \<and> CHR '')'' \<notin> set song_title then '')'' else []) @
     ''.m4a''
   \<and> new_name ''A/B'' ''Song (Live'' = ''A_B - Song (Live).m4a''
   \<and> path_stem (new_name ''A/B'' ''Song (Live'') = ''A_B - Song (Live)''"
proof -
  have 1: "new_name artist song_title =
     map (\<lambda>c. if c = CHR ''/'' then CHR ''_'' else c) artist @ '' - '' @
     map (\<lambda>c. if c = CHR ''/'' then CHR ''_'' else c) song_title @
     (if CHR ''('' \<in> set song_title \<and> CHR '')'' \<notin> set song_title then '')'' else []) @
     ''.m4a''"
    by (auto simp: new_name_def Let_def py_replace_slash contains_single)
  have 2: "new_name ''A/B'' ''Song (Live'' = ''A_B - Song (Live).m4a''"
    by (simp add: new_name_def Let_def py_replace_slash contains_single)
  have 3: "path_stem ''A_B - Song (Live).m4a'' = ''A_B - Song (Live)''"
    by (simp add: path_stem_def path_suffix_def Let_def)
  show ?thesis using 1 2 3 by simp
qed

theorem namer_filename_witness:
  "new_name ''AC/DC'' ''T.N.T. (Live)'' = ''AC_DC - T.N.T. (Live).m4a''"
  using namer_filename[of "''AC/DC''" "''T.N.T. (Live)''"] by simp

section \<open>Title cleaning\<close>

lemma bracket_absent: "CHR ''['' \<notin> set (clean_title u t)"
proof -
  have a: "\<And>s. CHR ''['' \<notin> set (py_strip (split_head ''['' s))"
    using split_head_single[of "CHR ''[''"] set_strip_where[of py_isspace]
    unfolding py_strip_def by blast
  have b: "\<And>s. CHR ''['' \<notin> set s \<Longrightarrow> CHR ''['' \<notin> set (py_strip (split_head ''(Official'' s))"
    using set_split_head[of "''(Official''"] set_strip_where[of py_isspace]
    unfolding py_strip_def by blast
  have c: "\<And>s. CHR ''['' \<notin> set s \<Longrightarrow> CHR ''['' \<notin> set (py_strip (py_replace ''(Visual)'' [] s))"
    using set_py_replace[of "''(Visual)''"] set_strip_where[of py_isspace]
    unfolding py_strip_def by blast
  have d: "\<And>s. CHR ''['' \<notin> set s \<Longrightarrow> CHR ''['' \<notin> set (py_strip_chars strip_set s)"
    using set_strip_where unfolding py_strip_chars_def by blast
  show ?thesis unfolding clean_title_def Let_def by (intro d c b a)
qed

lemma strip_chars_clean: "py_strip_chars strip_set (clean_title u t) = clean_title u t"
  unfolding clean_title_def Let_def py_strip_chars_def by (rule strip_where_fix)

text \<open>
  C3, as stated: cleaning is idempotent for every title and uploader. It is not: for
  the uploader \<open>ab\<close> and the title \<open>aabb\<close>, removing the uploader leaves \<open>ab\<close>, and
  cleaning \<open>ab\<close> again removes it entirely.
\<close>

theorem clean_title_not_idempotent:
  "clean_title ''ab'' ''aabb'' = ''ab'' \<and> clean_title ''ab'' ''ab'' = [] \<and>
   clean_title ''ab'' (clean_title ''ab'' ''aabb'') \<noteq> clean_title ''ab'' ''aabb''"
  by code_simp

text \<open>
  C3, amended: cleaning a cleaned title again changes nothing when the cleaned title does
  not contain the uploader's name (or that name is empty), contains neither marker
  \<open>(Official\<close> nor \<open>(Visual)\<close>, and neither starts nor ends with white space. The
  truncation at \<open>[\<close> and the last strip never change a cleaned title.
\<close>

theorem clean_title_idempotent_when_stable:
  assumes "u = [] \<or> \<not> contains u (clean_title u t)"
    and "\<not> contains ''(Official'' (clean_title u t)"
    and "\<not> contains ''(Visual)'' (clean_title u t)"
    and "py_strip (clean_title u t) = clean_title u t"
  shows "clean_title u (clean_title u t) = clean_title u t"
proof -
  let ?T = "clean_title u t"
  have s1: "(if contains u ?T then py_strip (py_replace u [] ?T) else ?T) = ?T"
    using assms(1,4) by (auto simp: py_replace_empty)
  have "\<not> contains ''['' ?T" using bracket_absent[of u t] by (simp add: contains_single)
  then have s2: "py_strip (split_head ''['' ?T) = ?T"
    using assms(4) by (simp add: split_head_no_sep del: split_head.simps)
  have s3: "py_strip (split_head ''(Official'' ?T) = ?T"
    using assms(2,4) by (simp add: split_head_no_sep del: split_head.simps)
  have s4: "py_strip (py_replace ''(Visual)'' [] ?T) = ?T"
    using assms(3,4) by (simp add: py_replace_absent del: py_replace.simps)
  have "clean_title u ?T = py_strip_chars strip_set ?T"
    unfolding clean_title_def[of u ?T] Let_def s1 s2 s3 s4 ..
  then show ?thesis by (simp add: strip_chars_clean)
qed

theorem clean_title_idempotent_witness:
  "clean_title ''Artist'' ''Artist - Song [Official Video]'' = ''Song'' \<and>
   clean_title ''Artist'' (clean_title ''Artist'' ''Artist - Song [Official Video]'') = ''Song''"
proof -
  have v: "clean_title ''Artist'' ''Artist - Song [Official Video]'' = ''Song''" by code_simp
  have h1: "''Artist'' = [] \<or>
      \<not> contains ''Artist'' (clean_title ''Artist'' ''Artist - Song [Official Video]'')"
    unfolding v by simp
  have h2: "\<not> contains ''(Official'' (clean_title ''Artist'' ''Artist - Song [Official Video]'')"
    unfolding v by simp
  have h3: "\<not> contains ''(Visual)'' (clean_title ''Artist'' ''Artist - Song [Official Video]'')"
    unfolding v by simp
  have h4: "py_strip (clean_title ''Artist'' ''Artist - Song [Official Video]'') =
      clean_title ''Artist'' ''Artist - Song [Official Video]''"
    unfolding v by code_simp
  from clean_title_idempotent_when_stable[OF h1 h2 h3 h4] v show ?thesis by simp
qed

section \<open>The URL that is fetched\<close>

text \<open>
  C9. When playlists are not allowed, the fetcher is called once, with the part of the
  submitted URL before the first \<open>&list=\<close>: a prefix of the URL, followed in the URL
  by \<open>&list=\<close> when the URL contains it, with no \<open>&list=\<close> starting inside it,
  and the whole URL when there is none. \<open>https://x.test/watch?v=abc&list=XYZ\<close> is
  fetched as \<open>https://x.test/watch?v=abc\<close>.
\<close>

theorem fetch_receives_stripped_url:
  "fetch_calls (trace (snd (job (w\<lparr>allow_playlist := False\<rparr>) url))) = [split_head ''&list='' url]
   \<and> prefix (split_head ''&list='' url) url
   \<and> (contains ''&list='' url \<longrightarrow> prefix (split_head ''&list='' url @ ''&list='') url)
   \<and> (\<forall>i. i < length (split_head ''&list='' url) \<longrightarrow> \<not> prefix ''&list='' (drop i url))
   \<and> (\<not> contains ''&list='' url \<longrightarrow> split_head ''&list='' url = url)
   \<and> url_local False ''https://x.test/watch?v=abc&list=XYZ'' = ''https://x.test/watch?v=abc''"
proof -
  have 1: "fetch_calls (trace (snd (job (w\<lparr>allow_playlist := False\<rparr>) url))) =
      [split_head ''&list='' url]"
    by (simp add: job_fetch_calls url_local_def)
  have 2: "contains ''&list='' url \<longrightarrow> prefix (split_head ''&list='' url @ ''&list='') url"
    using split_head_sep[of "''&list=''" url] by simp
  have 3: "\<forall>i. i < length (split_head ''&list='' url) \<longrightarrow> \<not> prefix ''&list='' (drop i url)"
    using split_head_first[of _ "''&list=''" url] by blast
  have 4: "\<not> contains ''&list='' url \<longrightarrow> split_head ''&list='' url = url"
    using split_head_no_sep[of "''&list=''" url] by blast
  have 5: "url_local False ''https://x.test/watch?v=abc&list=XYZ'' = ''https://x.test/watch?v=abc''"
    by (simp add: url_local_def)
  show ?thesis using 1 split_head_prefix[of "''&list=''" url] 2 3 4 5 by blast
qed

theorem fetch_receives_stripped_url_witness:
  "fetch_calls (trace (snd (job (ex_world M4A [Finished] (Single (ex_entry, ok_env))) ex_url))) =
     [''https://x.test/watch?v=abc'']
   \<and> contains ''&list='' ex_url
   \<and> prefix (''https://x.test/watch?v=abc'' @ ''&list='') ex_url"
proof -
  have w: "(ex_world M4A [Finished] (Single (ex_entry, ok_env)))\<lparr>allow_playlist := False\<rparr> =
      ex_world M4A [Finished] (Single (ex_entry, ok_env))"
    by (simp add: ex_world_def)
  have s: "split_head ''&list='' ex_url = ''https://x.test/watch?v=abc''"
    by (simp add: ex_url_def)
  have c: "contains ''&list='' ex_url" by (simp add: ex_url_def)
  from fetch_receives_stripped_url[of "ex_world M4A [Finished] (Single (ex_entry, ok_env))" ex_url]
  show ?thesis unfolding w s using c by simp
qed

section \<open>An entry whose file is missing\<close>

text \<open>
  C10. When the file of an entry is not on disk at the start of \<open>process_entry\<close>, the
  method returns \<open>None\<close> and changes nothing: no recognition, tagging, renaming or
  conversion is attempted and nothing is raised; the loop goes on with the next entry and
  keeps the file name it had. A job whose only entry has no file ends with a success
  event that carries no file name.
\<close>

theorem missing_file_skipped:
  "(local_path entry \<notin> files st \<longrightarrow>
      process_entry env entry st = (Inr None, st) \<and>
      run_entries fmt ((entry, env) # rest) fin st =
        run_entries fmt rest fin (update_progress 90 st))
   \<and> (returned (fetched_of w url) = Inr (Some (Single (entry, env))) \<and>
        local_path entry \<notin> on_disk (fetched_of w url) \<longrightarrow>
      job w url =
        (Succeeded None,
         finish_bar True None None
           (update_progress 100 (update_progress 90 (after_fetch w url)))))"
proof -
  have 1: "local_path entry \<notin> files st \<longrightarrow>
      process_entry env entry st = (Inr None, st) \<and>
      run_entries fmt ((entry, env) # rest) fin st =
        run_entries fmt rest fin (update_progress 90 st)"
    by (simp add: process_entry_skip)
  have 2: "returned (fetched_of w url) = Inr (Some (Single (entry, env))) \<and>
        local_path entry \<notin> on_disk (fetched_of w url) \<longrightarrow>
      job w url =
        (Succeeded None,
         finish_bar True None None
           (update_progress 100 (update_progress 90 (after_fetch w url))))"
    by (simp add: job_unfold entries_of_def process_entry_skip after_fetch_calls(4))
  show ?thesis using 1 2 by blast
qed

theorem missing_file_skipped_witness:
  "fst (job (ex_world M4A [Finished]
          (Single (ex_entry\<lparr>local_path := \<lparr>pdir = ''ytd_download'', pname = ''gone.m4a''\<rparr>\<rparr>, ok_env)))
        ex_url) = Succeeded None
   \<and> trace (snd (job (ex_world M4A [Finished]
          (Single (ex_entry\<lparr>local_path := \<lparr>pdir = ''ytd_download'', pname = ''gone.m4a''\<rparr>\<rparr>, ok_env)))
        ex_url)) =
       [Progress 5, Progress 10, Fetch ''https://x.test/watch?v=abc'' False, Progress 90,
        Progress 90, Progress 100, Progress 100, Finish True None None]"
proof -
  let ?e = "ex_entry\<lparr>local_path := \<lparr>pdir = ''ytd_download'', pname = ''gone.m4a''\<rparr>\<rparr>"
  let ?w = "ex_world M4A [Finished] (Single (?e, ok_env))"
  have h1: "returned (fetched_of ?w ex_url) = Inr (Some (Single (?e, ok_env)))"
    by (simp add: fetched_of_def ex_world_def)
  have h2: "local_path ?e \<notin> on_disk (fetched_of ?w ex_url)"
    by (simp add: fetched_of_def ex_world_def ex_path_def)
  have a: "trace (after_fetch ?w ex_url) =
      [Progress 5, Progress 10, Fetch ''https://x.test/watch?v=abc'' False, Progress 90]"
    by (simp add: after_fetch_def fetched_of_def ex_world_def ex_url_def url_local_def)
  from missing_file_skipped[of ?e "after_fetch ?w ex_url" ok_env M4A "[]" None ?w ex_url] h1 h2
  have "job ?w ex_url = (Succeeded None,
         finish_bar True None None
           (update_progress 100 (update_progress 90 (after_fetch ?w ex_url))))" by blast
  then show ?thesis by (simp add: a)
qed

section \<open>A rename that fails\<close>

text \<open>
  C5, as stated: when the rename fails, the success event carries the path before the
  rename. It does not: for the single video \<open>ytd_download/abc.m4a\<close> whose rename
  raises, the job succeeds, the file is still \<open>abc.m4a\<close>, and the success event
  carries no file name at all.
\<close>

theorem rename_failure_counterexample:
  "fst (job (ex_world M4A [Finished]
          (Single (ex_entry, ok_env\<lparr>rename := Some ''PermissionError''\<rparr>))) ex_url) =
     Succeeded None
   \<and> fst (job (ex_world M4A [Finished]
          (Single (ex_entry, ok_env\<lparr>rename := Some ''PermissionError''\<rparr>))) ex_url) \<noteq>
     Succeeded (Some (path_stem (pname ex_path)))
   \<and> finish_calls (trace (snd (job (ex_world M4A [Finished]
          (Single (ex_entry, ok_env\<lparr>rename := Some ''PermissionError''\<rparr>))) ex_url))) =
     [Finish True None None]
   \<and> ex_path \<in> files (snd (job (ex_world M4A [Finished]
          (Single (ex_entry, ok_env\<lparr>rename := Some ''PermissionError''\<rparr>))) ex_url))"
  by code_simp

text \<open>
  C5, amended: when the rename fails, \<open>process_entry\<close> logs the error and returns
  \<open>None\<close>; the tagged file stays at the path of the download; the loop goes on with the
  next entry without converting this one and without changing the file name it reports.
  The job is still successful, and for a job with this single entry the success event
  carries no file name.
\<close>

theorem rename_failure_no_filename:
  assumes "local_path entry \<in> files st"
    and "\<not> no_track (recognized env)"
    and "mp4_open env = None"
    and "save env = None"
    and "rename env = Some e"
  shows "fst (process_entry env entry (update_progress 90 st)) = Inr None
    \<and> local_path entry \<in> files (snd (process_entry env entry (update_progress 90 st)))
    \<and> run_entries fmt ((entry, env) # rest) fin st =
        run_entries fmt rest fin (snd (process_entry env entry (update_progress 90 st)))
    \<and> fst (run_entries fmt [(entry, env)] fin st) = Succeeded fin"
proof -
  let ?st0 = "update_progress 90 st"
  have ex: "local_path entry \<in> files ?st0" using assms(1) by simp
  from process_entry_facts(4)[OF ex assms(2,3,4)] assms(5)
  have r: "fst (process_entry env entry ?st0) = Inr None"
    and f: "local_path entry \<in> files (snd (process_entry env entry ?st0))" by simp_all
  obtain st1 where pe: "process_entry env entry ?st0 = (Inr None, st1)"
    using r by (cases "process_entry env entry ?st0") simp
  have s: "\<And>fin' rest'. run_entries fmt ((entry, env) # rest') fin' st = run_entries fmt rest' fin' st1"
    by (simp add: pe)
  show ?thesis using r f s by (simp add: pe)
qed

theorem rename_failure_no_filename_witness:
  "fst (run_entries M4A [(ex_entry, ok_env\<lparr>rename := Some ''PermissionError''\<rparr>)] None
          \<lparr>files = {ex_path}, trace = []\<rparr>) = Succeeded None"
proof -
  let ?env = "ok_env\<lparr>rename := Some ''PermissionError''\<rparr>"
  have h1: "local_path ex_entry \<in> files \<lparr>files = {ex_path}, trace = []\<rparr>"
    by (simp add: ex_entry_def)
  have h2: "\<not> no_track (recognized ?env)"
    by (simp add: recognized_def ok_env_def no_track_def)
  have h3: "mp4_open ?env = None" by (simp add: ok_env_def)
  have h4: "save ?env = None" by (simp add: ok_env_def)
  have h5: "rename ?env = Some ''PermissionError''" by simp
  from rename_failure_no_filename[OF h1 h2 h3 h4 h5, of M4A "[]" None]
  show ?thesis by simp
qed

section \<open>A recognition without a track\<close>




section \<open>The conversion\<close>





section \<open>The temporary file of the recognition\<close>








section \<open>The reported progress\<close>


lemma progress_snoc [simp]:
  "progress_values (tr @ [Progress v]) = progress_values tr @ [v]"
  "progress_values (tr @ [Progress v, Finish s f e]) = progress_values tr @ [v]"
  by (simp_all add: progress_values_def)







section \<open>The precedence of the recognised metadata\<close>

text \<open>
  C7. When the recognition returns a track with a title and a subtitle, the resolved
  title and artist are those two, whatever the fetcher gave, and they are the values
  written to the title and artist tags. For the entry with the title
  \<open>Artist - Song [Official Video]\<close> and the uploader \<open>Artist\<close>, recognised as
  \<open>Song\<close> by \<open>Artist\<close>, the resolved values are \<open>Song\<close> and \<open>Artist\<close>; the
  cleaned title of the fetcher, which is what is resolved without a track, is \<open>Song\<close>.
\<close>

theorem recognized_metadata_wins:
  "resolve uploader title (track_data_of (With_Track (Some (tr\<lparr>tr_title := Some t, tr_subtitle := Some a\<rparr>)))) =
     (a, t, py_or (tr_coverart tr) (tr_background tr))
   \<and> nam (build_tags entry td a t) = t \<and> ART (build_tags entry td a t) = a
   \<and> resolved (ok_env\<lparr>recognize := Inr (With_Track (Some
         \<lparr>tr_title = Some ''Song'', tr_subtitle = Some ''Artist'', tr_coverart = None,
          tr_background = None, tr_genre_primary = None, tr_sections = []\<rparr>))\<rparr>)
       (ex_entry\<lparr>e_title := Some ''Artist - Song [Official Video]'', e_uploader := Some ''Artist''\<rparr>) =
     (''Artist'', ''Song'', None)
   \<and> clean_title ''Artist'' ''Artist - Song [Official Video]'' = ''Song''
   \<and> resolved (ok_env\<lparr>recognize := Inr Empty_Result\<rparr>)
       (ex_entry\<lparr>e_title := Some ''Artist - Song [Official Video]'', e_uploader := Some ''Artist''\<rparr>) =
     (''Artist'', ''Song'', None)"
proof -
  have 1: "resolve uploader title (track_data_of (With_Track (Some (tr\<lparr>tr_title := Some t, tr_subtitle := Some a\<rparr>)))) =
     (a, t, py_or (tr_coverart tr) (tr_background tr))"
    by (simp add: resolve_def track_data_of_def get_or_def Let_def)
  have 2: "nam (build_tags entry td a t) = t"
    by (simp add: build_tags_def Let_def case_prod_beta)
  have art: "ART (build_tags entry td a t) = a"
    by (simp add: build_tags_def Let_def case_prod_beta)
  have 3: "resolved (ok_env\<lparr>recognize := Inr (With_Track (Some
         \<lparr>tr_title = Some ''Song'', tr_subtitle = Some ''Artist'', tr_coverart = None,
          tr_background = None, tr_genre_primary = None, tr_sections = []\<rparr>))\<rparr>)
       (ex_entry\<lparr>e_title := Some ''Artist - Song [Official Video]'', e_uploader := Some ''Artist''\<rparr>) =
     (''Artist'', ''Song'', None)"
    by code_simp
  have 4: "clean_title ''Artist'' ''Artist - Song [Official Video]'' = ''Song''"
    by code_simp
  have 5: "resolved (ok_env\<lparr>recognize := Inr Empty_Result\<rparr>)
       (ex_entry\<lparr>e_title := Some ''Artist - Song [Official Video]'', e_uploader := Some ''Artist''\<rparr>) =
     (''Artist'', ''Song'', None)"
    by code_simp
  show ?thesis by (rule conjI[OF 1 conjI[OF 2 conjI[OF art conjI[OF 3 conjI[OF 4 5]]]]])
qed

theorem recognized_metadata_wins_witness:
  "resolve ''Uploader'' ''Raw title''
     (track_data_of (With_Track (Some (ex_track\<lparr>tr_title := Some ''Song'', tr_subtitle := Some ''Artist''\<rparr>)))) =
     (''Artist'', ''Song'', None)
   \<and> fst (job (ex_world M4A [Finished] (Single (ex_entry, ok_env))) ex_url) =
     Succeeded (Some ''Artist - Song'')
   \<and> save_calls (trace (snd (job (ex_world M4A [Finished] (Single (ex_entry, ok_env))) ex_url))) =
     [ex_path]"
proof -
  have 1: "resolve ''Uploader'' ''Raw title''
     (track_data_of (With_Track (Some (ex_track\<lparr>tr_title := Some ''Song'', tr_subtitle := Some ''Artist''\<rparr>)))) =
     (''Artist'', ''Song'', None)"
    using recognized_metadata_wins[where uploader="''Uploader''" and title="''Raw title''"
        and tr=ex_track and t="''Song''" and a="''Artist''"]
    by (simp add: ex_track_def py_or_def)
  have 2: "fst (job (ex_world M4A [Finished] (Single (ex_entry, ok_env))) ex_url) =
     Succeeded (Some ''Artist - Song'')" by code_simp
  have 3: "save_calls (trace (snd (job (ex_world M4A [Finished] (Single (ex_entry, ok_env))) ex_url))) =
     [ex_path]" by code_simp
  show ?thesis by (rule conjI[OF 1 conjI[OF 2 3]])
qed

end
